theory Spec2Isabelle
  imports Main "HOL-Library.Multiset" "HOL-Library.List_Lexorder"
begin

section \<open>Data model (src/types/index.ts)\<close>

text \<open>
  A JavaScript string is a sequence of UTF-16 code units. Identifiers and counts are
  JavaScript numbers that hold integers; they are modelled as \<open>int\<close>. An optional
  field (\<open>ticker?: string\<close>) and a nullable one (\<open>Query | null\<close>) are \<open>option\<close>s.
  The payloads typed \<open>any\<close> (\<open>result\<close>, \<open>comparisonData\<close>) are type parameters.
\<close>

type_synonym jsstring = "nat list"

datatype Status = Pending | Completed | Failed

record 'r Query =
  id_q :: int
  user_id :: int
  query_text :: jsstring
  query_type :: jsstring
  ticker :: "jsstring option"
  result :: "'r option"
  status :: Status
  error_message :: "jsstring option"
  created_at :: jsstring
  completed_at :: "jsstring option"

datatype QueryCreate = QueryCreate jsstring jsstring "jsstring option"

section \<open>The store (src/store/querySlice.ts)\<close>

record ('r, 'c) QueryState =
  queries :: "'r Query list"
  currentQuery :: "'r Query option"
  comparisonData :: "'c option"
  total :: int
  loading :: bool
  error :: "jsstring option"

definition initialState :: "('r, 'c) QueryState" where
  "initialState =
     \<lparr>queries = [], currentQuery = None, comparisonData = None,
      total = 0, loading = False, error = None\<rparr>"

text \<open>
  The actions the slice can receive: its three own reducers and the
  pending / fulfilled / rejected actions of the four thunks, with their payloads.
\<close>

datatype ('r, 'c) Action =
    ClearError
  | ClearCurrentQuery
  | SetComparisonData "'c option"
  | CreateQueryPending
  | CreateQueryFulfilled "'r Query"
  | CreateQueryRejected jsstring
  | FetchQueriesPending
  | FetchQueriesFulfilled "'r Query list" int
  | FetchQueriesRejected jsstring
  | FetchQueryPending
  | FetchQueryFulfilled "'r Query"
  | FetchQueryRejected jsstring
  | DeleteQueryPending
  | DeleteQueryFulfilled int
  | DeleteQueryRejected jsstring

text \<open>\<open>Array.prototype.findIndex\<close>: the first index whose element satisfies the
  predicate, or \<open>-1\<close>.\<close>

fun findIndex :: "('a \<Rightarrow> bool) \<Rightarrow> 'a list \<Rightarrow> int" where
  "findIndex p [] = - 1"
| "findIndex p (x # xs) =
     (if p x then 0
      else (let i = findIndex p xs in if i = - 1 then - 1 else i + 1))"

definition clearError :: "('r, 'c) QueryState \<Rightarrow> ('r, 'c) QueryState" where
  "clearError state = state\<lparr>error := None\<rparr>"

definition clearCurrentQuery :: "('r, 'c) QueryState \<Rightarrow> ('r, 'c) QueryState" where
  "clearCurrentQuery state = state\<lparr>currentQuery := None, comparisonData := None\<rparr>"

definition setComparisonData ::
  "'c option \<Rightarrow> ('r, 'c) QueryState \<Rightarrow> ('r, 'c) QueryState" where
  "setComparisonData payload state =
     state\<lparr>comparisonData := payload, currentQuery := None\<rparr>"

definition createQuery_pending :: "('r, 'c) QueryState \<Rightarrow> ('r, 'c) QueryState" where
  "createQuery_pending state = state\<lparr>loading := True, error := None\<rparr>"

definition createQuery_fulfilled ::
  "'r Query \<Rightarrow> ('r, 'c) QueryState \<Rightarrow> ('r, 'c) QueryState" where
  "createQuery_fulfilled payload state =
     state\<lparr>loading := False, currentQuery := Some payload, comparisonData := None,
           queries := payload # queries state\<rparr>"

definition createQuery_rejected ::
  "jsstring \<Rightarrow> ('r, 'c) QueryState \<Rightarrow> ('r, 'c) QueryState" where
  "createQuery_rejected payload state = state\<lparr>loading := False, error := Some payload\<rparr>"

definition fetchQueries_pending :: "('r, 'c) QueryState \<Rightarrow> ('r, 'c) QueryState" where
  "fetchQueries_pending state = state\<lparr>loading := True, error := None\<rparr>"

definition fetchQueries_fulfilled ::
  "'r Query list \<Rightarrow> int \<Rightarrow> ('r, 'c) QueryState \<Rightarrow> ('r, 'c) QueryState" where
  "fetchQueries_fulfilled qs n state = state\<lparr>loading := False, queries := qs, total := n\<rparr>"

definition fetchQueries_rejected ::
  "jsstring \<Rightarrow> ('r, 'c) QueryState \<Rightarrow> ('r, 'c) QueryState" where
  "fetchQueries_rejected payload state = state\<lparr>loading := False, error := Some payload\<rparr>"

definition fetchQuery_fulfilled ::
  "'r Query \<Rightarrow> ('r, 'c) QueryState \<Rightarrow> ('r, 'c) QueryState" where
  "fetchQuery_fulfilled payload state =
     (let state1 = state\<lparr>currentQuery := Some payload\<rparr>;
          index = findIndex (\<lambda>q. id_q q = id_q payload) (queries state1)
      in if index \<noteq> - 1
         then state1\<lparr>queries := (queries state1)[nat index := payload]\<rparr>
         else state1)"

definition deleteQuery_fulfilled ::
  "int \<Rightarrow> ('r, 'c) QueryState \<Rightarrow> ('r, 'c) QueryState" where
  "deleteQuery_fulfilled payload state =
     state\<lparr>queries := filter (\<lambda>q. id_q q \<noteq> payload) (queries state),
           total := total state - 1\<rparr>"

text \<open>
  The slice's reducer. An action with no case (\<open>fetchQuery.pending\<close>,
  \<open>fetchQuery.rejected\<close>, \<open>deleteQuery.pending\<close>, \<open>deleteQuery.rejected\<close>)
  returns the state as it is.
\<close>

fun reducer :: "('r, 'c) QueryState \<Rightarrow> ('r, 'c) Action \<Rightarrow> ('r, 'c) QueryState" where
  "reducer state ClearError = clearError state"
| "reducer state ClearCurrentQuery = clearCurrentQuery state"
| "reducer state (SetComparisonData payload) = setComparisonData payload state"
| "reducer state CreateQueryPending = createQuery_pending state"
| "reducer state (CreateQueryFulfilled payload) = createQuery_fulfilled payload state"
| "reducer state (CreateQueryRejected payload) = createQuery_rejected payload state"
| "reducer state FetchQueriesPending = fetchQueries_pending state"
| "reducer state (FetchQueriesFulfilled qs n) = fetchQueries_fulfilled qs n state"
| "reducer state (FetchQueriesRejected payload) = fetchQueries_rejected payload state"
| "reducer state (FetchQueryFulfilled payload) = fetchQuery_fulfilled payload state"
| "reducer state (DeleteQueryFulfilled payload) = deleteQuery_fulfilled payload state"
| "reducer state FetchQueryPending = state"
| "reducer state (FetchQueryRejected payload) = state"
| "reducer state DeleteQueryPending = state"
| "reducer state (DeleteQueryRejected payload) = state"

text \<open>A run of the store: the actions applied in order, from a given state.\<close>

definition run :: "('r, 'c) QueryState \<Rightarrow> ('r, 'c) Action list \<Rightarrow> ('r, 'c) QueryState" where
  "run state acts = foldl reducer state acts"

text \<open>At most one of the two display slots is occupied.\<close>

definition exclusive :: "('r, 'c) QueryState \<Rightarrow> bool" where
  "exclusive state = (currentQuery state = None \<or> comparisonData state = None)"

text \<open>The row of \<open>queries\<close> that carries an id (the first one, as \<open>findIndex\<close> reads).\<close>

definition row :: "int \<Rightarrow> ('r, 'c) QueryState \<Rightarrow> 'r Query option" where
  "row i state = find (\<lambda>q. id_q q = i) (queries state)"

definition terminal :: "Status \<Rightarrow> bool" where
  "terminal s = (s = Completed \<or> s = Failed)"

text \<open>A job used in the examples: the given id and status, every other field empty.\<close>

definition job :: "int \<Rightarrow> Status \<Rightarrow> unit Query" where
  "job i s =
     \<lparr>id_q = i, user_id = 1, query_text = [], query_type = [], ticker = None,
      result = None, status = s, error_message = None, created_at = [],
      completed_at = None\<rparr>"

section \<open>The submission form and the poll loop (src/components/dashboard/QueryInput.tsx)\<close>

text \<open>
  The outcome of a thunk: the fulfilled action's payload, or the message passed to
  \<open>rejectWithValue\<close>. The response of the network call is a parameter of each thunk.
\<close>

datatype 'a ThunkResult = Fulfilled 'a | Rejected jsstring

text \<open>The calls of \<open>queryService\<close>, each one network request.\<close>

datatype Call =
    CreateQueryCall QueryCreate
  | GetQueriesCall int int
  | GetQueryCall int
  | DeleteQueryCall int

text \<open>
  A browser interval: the handle \<open>setInterval\<close> returned, the \<open>pollingQueryId\<close>
  its callback closed over, and its period in milliseconds.
\<close>

record Timer =
  handle :: nat
  watched :: int
  delay :: nat

text \<open>
  The component's state (\<open>useState\<close>), the store it dispatches to, the active
  intervals, the interval handle held by the pending cleanup of the polling effect, and
  a log of the network calls and of the alerts shown.
\<close>

record ('r, 'c) App =
  store :: "('r, 'c) QueryState"
  queryText :: jsstring
  queryType :: jsstring
  ticker_st :: jsstring
  pollingQueryId :: "int option"
  timers :: "Timer list"
  cleanup :: "nat option"
  nextHandle :: nat
  calls :: "Call list"
  alerts :: "string list"

definition js :: "string \<Rightarrow> jsstring" where
  "js s = map of_char s"

definition mount :: "('r, 'c) QueryState \<Rightarrow> ('r, 'c) App" where
  "mount state =
     \<lparr>store = state, queryText = [], queryType = js ''general'', ticker_st = [],
      pollingQueryId = None, timers = [], cleanup = None, nextHandle = 1,
      calls = [], alerts = []\<rparr>"

definition dispatch :: "('r, 'c) Action \<Rightarrow> ('r, 'c) App \<Rightarrow> ('r, 'c) App" where
  "dispatch a app = app\<lparr>store := reducer (store app) a\<rparr>"

text \<open>
  The thunks of the slice: the pending action, the network call, then the fulfilled or
  the rejected action. A thunk never throws; its caller reads the outcome.
\<close>

definition createQuery ::
  "QueryCreate \<Rightarrow> 'r Query ThunkResult \<Rightarrow> ('r, 'c) App \<Rightarrow> ('r, 'c) App" where
  "createQuery data response app =
     (let app1 = dispatch CreateQueryPending app;
          app2 = app1\<lparr>calls := calls app1 @ [CreateQueryCall data]\<rparr>
      in case response of
           Fulfilled q \<Rightarrow> dispatch (CreateQueryFulfilled q) app2
         | Rejected m \<Rightarrow> dispatch (CreateQueryRejected m) app2)"

definition fetchQueries ::
  "int \<Rightarrow> int \<Rightarrow> ('r Query list \<times> int) ThunkResult \<Rightarrow> ('r, 'c) App \<Rightarrow> ('r, 'c) App" where
  "fetchQueries skip limit response app =
     (let app1 = dispatch FetchQueriesPending app;
          app2 = app1\<lparr>calls := calls app1 @ [GetQueriesCall skip limit]\<rparr>
      in case response of
           Fulfilled (qs, n) \<Rightarrow> dispatch (FetchQueriesFulfilled qs n) app2
         | Rejected m \<Rightarrow> dispatch (FetchQueriesRejected m) app2)"

definition fetchQuery ::
  "int \<Rightarrow> 'r Query ThunkResult \<Rightarrow> ('r, 'c) App \<Rightarrow> ('r, 'c) App" where
  "fetchQuery i response app =
     (let app1 = dispatch FetchQueryPending app;
          app2 = app1\<lparr>calls := calls app1 @ [GetQueryCall i]\<rparr>
      in case response of
           Fulfilled q \<Rightarrow> dispatch (FetchQueryFulfilled q) app2
         | Rejected m \<Rightarrow> dispatch (FetchQueryRejected m) app2)"

definition setInterval :: "int \<Rightarrow> nat \<Rightarrow> ('r, 'c) App \<Rightarrow> ('r, 'c) App \<times> nat" where
  "setInterval i ms app =
     (app\<lparr>timers := timers app @ [\<lparr>handle = nextHandle app, watched = i, delay = ms\<rparr>],
          nextHandle := Suc (nextHandle app)\<rparr>,
      nextHandle app)"

definition clearInterval :: "nat \<Rightarrow> ('r, 'c) App \<Rightarrow> ('r, 'c) App" where
  "clearInterval h app = app\<lparr>timers := filter (\<lambda>t. handle t \<noteq> h) (timers app)\<rparr>"

text \<open>
  The polling effect. Its body returns early when \<open>pollingQueryId\<close> is falsy
  (\<open>null\<close> or \<open>0\<close>) and then leaves no cleanup; otherwise it starts an interval of
  2000 ms and leaves the cleanup that clears it.
\<close>

definition pollEffect :: "('r, 'c) App \<Rightarrow> ('r, 'c) App" where
  "pollEffect app =
     (case pollingQueryId app of
        None \<Rightarrow> app\<lparr>cleanup := None\<rparr>
      | Some i \<Rightarrow>
          if i = 0 then app\<lparr>cleanup := None\<rparr>
          else (let (app1, pollInterval) = setInterval i 2000 app
                in app1\<lparr>cleanup := Some pollInterval\<rparr>))"

definition pollCleanup :: "('r, 'c) App \<Rightarrow> ('r, 'c) App" where
  "pollCleanup app =
     (case cleanup app of
        None \<Rightarrow> app
      | Some pollInterval \<Rightarrow> (clearInterval pollInterval app)\<lparr>cleanup := None\<rparr>)"

text \<open>
  \<open>setPollingQueryId\<close>: a state update with the same value does nothing; a changed
  value re-renders, and since \<open>pollingQueryId\<close> is a dependency of the effect, the
  previous cleanup runs and then the effect body.
\<close>

definition setPollingQueryId :: "int option \<Rightarrow> ('r, 'c) App \<Rightarrow> ('r, 'c) App" where
  "setPollingQueryId v app =
     (if pollingQueryId app = v then app
      else pollEffect (pollCleanup (app\<lparr>pollingQueryId := v\<rparr>)))"

text \<open>The interval's callback, with the id it closed over.\<close>

definition pollTick ::
  "int \<Rightarrow> 'r Query ThunkResult \<Rightarrow> ('r Query list \<times> int) ThunkResult
     \<Rightarrow> ('r, 'c) App \<Rightarrow> ('r, 'c) App" where
  "pollTick pollingId response listResponse app =
     (let app1 = fetchQuery pollingId response app
      in case response of
           Fulfilled query \<Rightarrow>
             if status query = Completed \<or> status query = Failed
             then fetchQueries 0 20 listResponse (setPollingQueryId None app1)
             else app1
         | Rejected m \<Rightarrow> app1)"

text \<open>A tick of the interval with handle \<open>h\<close>; a cleared interval does not tick.\<close>

definition tick ::
  "nat \<Rightarrow> 'r Query ThunkResult \<Rightarrow> ('r Query list \<times> int) ThunkResult
     \<Rightarrow> ('r, 'c) App \<Rightarrow> ('r, 'c) App" where
  "tick h response listResponse app =
     (case find (\<lambda>t. handle t = h) (timers app) of
        None \<Rightarrow> app
      | Some t \<Rightarrow> pollTick (watched t) response listResponse app)"

text \<open>
  \<open>String.prototype.trim\<close> removes the white space and line terminators of
  ECMAScript from both ends.
\<close>

definition isWhiteSpace :: "nat \<Rightarrow> bool" where
  "isWhiteSpace c =
     (c \<in> {9, 10, 11, 12, 13, 32, 160, 5760, 8232, 8233, 8239, 8287, 12288, 65279}
      \<or> (8192 \<le> c \<and> c \<le> 8202))"

definition trim :: "jsstring \<Rightarrow> jsstring" where
  "trim s = rev (dropWhile isWhiteSpace (rev (dropWhile isWhiteSpace s)))"

definition ticker_alert :: string where
  "ticker_alert = ''Please enter a ticker symbol for stock analysis''"

definition handleSubmit ::
  "'r Query ThunkResult \<Rightarrow> ('r Query list \<times> int) ThunkResult
     \<Rightarrow> ('r, 'c) App \<Rightarrow> ('r, 'c) App" where
  "handleSubmit createResponse listResponse app =
     (if trim (queryText app) = [] then app
      else if queryType app = js ''analyze'' \<and> trim (ticker_st app) = []
      then app\<lparr>alerts := alerts app @ [ticker_alert]\<rparr>
      else
        (let data = QueryCreate (queryText app) (queryType app)
               (if queryType app = js ''analyze''
                then Some (if ticker_st app = [] then js ''AAPL'' else ticker_st app)
                else None);
             app1 = createQuery data createResponse app;
             app2 = (case createResponse of
                       Fulfilled q \<Rightarrow>
                         setPollingQueryId (Some (id_q q))
                           (fetchQueries 0 20 listResponse app1)
                     | Rejected m \<Rightarrow> app1)
         in app2\<lparr>queryText := [], ticker_st := []\<rparr>))"

text \<open>A run of \<open>setPollingQueryId\<close> calls, in order.\<close>

definition arms :: "int option list \<Rightarrow> ('r, 'c) App \<Rightarrow> ('r, 'c) App" where
  "arms vs app = foldl (\<lambda>a v. setPollingQueryId v a) app vs"

text \<open>
  The poll loop watches job \<open>i\<close> through the interval \<open>h\<close>: that interval is the
  only active one, its period is 2000 ms, and the pending cleanup holds its handle.
\<close>

definition watching :: "int \<Rightarrow> nat \<Rightarrow> ('r, 'c) App \<Rightarrow> bool" where
  "watching i h app =
     (pollingQueryId app = Some i
      \<and> timers app = [\<lparr>handle = h, watched = i, delay = 2000\<rparr>]
      \<and> cleanup app = Some h)"

definition idle :: "('r, 'c) App \<Rightarrow> bool" where
  "idle app = (timers app = [] \<and> cleanup app = None)"

definition poll_inv :: "('r, 'c) App \<Rightarrow> bool" where
  "poll_inv app =
     (case timers app of
        [] \<Rightarrow> cleanup app = None \<and> (pollingQueryId app = None \<or> pollingQueryId app = Some 0)
      | [t] \<Rightarrow> cleanup app = Some (handle t) \<and> pollingQueryId app = Some (watched t)
               \<and> watched t \<noteq> 0 \<and> delay t = 2000
      | _ \<Rightarrow> False)"

text \<open>A run of failed ticks of the interval \<open>h\<close>, one per error message.\<close>

definition failedTicks ::
  "nat \<Rightarrow> jsstring list \<Rightarrow> ('r Query list \<times> int) ThunkResult
     \<Rightarrow> ('r, 'c) App \<Rightarrow> ('r, 'c) App" where
  "failedTicks h ms listResponse app =
     foldl (\<lambda>a m. tick h (Rejected m) listResponse a) app ms"

section \<open>The history projection (src/components/dashboard/QueryHistory.tsx)\<close>

datatype SortBy = Newest | Oldest | Ticker

text \<open>
  Arrays are objects: the heap holds the arrays by address. \<open>filter\<close> and the spread
  \<open>[...xs]\<close> allocate a new array; \<open>sort\<close> writes the array it is called on.
\<close>

definition alloc :: "'a list \<Rightarrow> 'a list list \<Rightarrow> 'a list list \<times> nat" where
  "alloc xs h = (h @ [xs], length h)"

text \<open>
  A comparator returns a number, which may be \<open>NaN\<close> (\<open>None\<close>).
  \<open>Array.prototype.sort\<close> reads a \<open>NaN\<close> result as \<open>0\<close>.
\<close>

definition sortCompare :: "('a \<Rightarrow> 'a \<Rightarrow> int option) \<Rightarrow> 'a \<Rightarrow> 'a \<Rightarrow> int" where
  "sortCompare cmp x y = (case cmp x y of None \<Rightarrow> 0 | Some v \<Rightarrow> v)"

text \<open>
  \<open>Array.prototype.sort\<close> is stable, and for a consistent comparator its result is
  fixed by the language: an element goes before the first one it does not compare
  greater than. With an inconsistent comparator the order is left to the engine; the
  facts about the order below are stated for consistent comparators only.
\<close>

fun insert_cmp :: "('a \<Rightarrow> 'a \<Rightarrow> int option) \<Rightarrow> 'a \<Rightarrow> 'a list \<Rightarrow> 'a list" where
  "insert_cmp cmp x [] = [x]"
| "insert_cmp cmp x (y # ys) =
     (if sortCompare cmp x y \<le> 0 then x # y # ys else y # insert_cmp cmp x ys)"

definition sort_cmp :: "('a \<Rightarrow> 'a \<Rightarrow> int option) \<Rightarrow> 'a list \<Rightarrow> 'a list" where
  "sort_cmp cmp xs = foldr (insert_cmp cmp) xs []"

definition array_sort ::
  "('a \<Rightarrow> 'a \<Rightarrow> int option) \<Rightarrow> nat \<Rightarrow> 'a list list \<Rightarrow> 'a list list \<times> nat" where
  "array_sort cmp r h = (h[r := sort_cmp cmp (h ! r)], r)"

fun startsWith :: "'a list \<Rightarrow> 'a list \<Rightarrow> bool" where
  "startsWith s [] = True"
| "startsWith [] (y # ys) = False"
| "startsWith (x # xs) (y # ys) = (x = y \<and> startsWith xs ys)"

fun includes_js :: "'a list \<Rightarrow> 'a list \<Rightarrow> bool" where
  "includes_js [] t = (t = [])"
| "includes_js (x # xs) t = (startsWith (x # xs) t \<or> includes_js xs t)"

text \<open>
  The search filter. \<open>toLowerCase\<close> is a parameter; an absent ticker makes the
  optional chain \<open>undefined\<close>, which is falsy.
\<close>

definition matches :: "(jsstring \<Rightarrow> jsstring) \<Rightarrow> jsstring \<Rightarrow> 'r Query \<Rightarrow> bool" where
  "matches toLowerCase searchTerm query =
     (let searchLower = toLowerCase searchTerm
      in includes_js (toLowerCase (query_text query)) searchLower
         \<or> (case ticker query of
               None \<Rightarrow> False
             | Some t \<Rightarrow> includes_js (toLowerCase t) searchLower))"

text \<open>\<open>a.ticker || ''\<close>: an absent or empty ticker reads as the empty string.\<close>

definition orEmpty :: "jsstring option \<Rightarrow> jsstring" where
  "orEmpty t = (case t of None \<Rightarrow> [] | Some s \<Rightarrow> if s = [] then [] else s)"

text \<open>The difference of two numbers; \<open>NaN\<close> on either side gives \<open>NaN\<close>.\<close>

definition minus_num :: "int option \<Rightarrow> int option \<Rightarrow> int option" where
  "minus_num a b = (case (a, b) of (Some x, Some y) \<Rightarrow> Some (x - y) | _ \<Rightarrow> None)"

text \<open>
  The comparator of \<open>sortedQueries\<close>. Two functions of the platform are parameters:
  \<open>getTime\<close> stands for \<open>new Date(s).getTime()\<close>, which is \<open>NaN\<close>
  (\<open>None\<close>) for a string that is not a date, and \<open>localeCompare\<close> for
  \<open>String.prototype.localeCompare\<close>, the collation of the locale.
\<close>

definition compareFn ::
  "(jsstring \<Rightarrow> int option) \<Rightarrow> (jsstring \<Rightarrow> jsstring \<Rightarrow> int) \<Rightarrow> SortBy
     \<Rightarrow> 'r Query \<Rightarrow> 'r Query \<Rightarrow> int option" where
  "compareFn getTime localeCompare sortBy a b =
     (case sortBy of
        Newest \<Rightarrow> minus_num (getTime (created_at b)) (getTime (created_at a))
      | Oldest \<Rightarrow> minus_num (getTime (created_at a)) (getTime (created_at b))
      | Ticker \<Rightarrow> Some (localeCompare (orEmpty (ticker a)) (orEmpty (ticker b))))"

text \<open>
  \<open>filteredQueries\<close> and \<open>sortedQueries\<close>, from the address of the store's
  \<open>queries\<close> array: the new heap and the address of the sorted array.
\<close>

definition sortedQueries ::
  "(jsstring \<Rightarrow> jsstring) \<Rightarrow> (jsstring \<Rightarrow> int option) \<Rightarrow> (jsstring \<Rightarrow> jsstring \<Rightarrow> int)
     \<Rightarrow> jsstring \<Rightarrow> SortBy \<Rightarrow> nat
     \<Rightarrow> 'r Query list list \<Rightarrow> 'r Query list list \<times> nat" where
  "sortedQueries toLowerCase getTime localeCompare searchTerm sortBy queriesRef h =
     (let (h1, filteredQueries) =
            alloc (filter (matches toLowerCase searchTerm) (h ! queriesRef)) h;
          (h2, copy) = alloc (h1 ! filteredQueries) h1
      in array_sort (compareFn getTime localeCompare sortBy) copy h2)"

text \<open>The rows the view shows: the sorted array read from the new heap.\<close>

definition shown ::
  "(jsstring \<Rightarrow> jsstring) \<Rightarrow> (jsstring \<Rightarrow> int option) \<Rightarrow> (jsstring \<Rightarrow> jsstring \<Rightarrow> int)
     \<Rightarrow> jsstring \<Rightarrow> SortBy \<Rightarrow> nat \<Rightarrow> 'r Query list list \<Rightarrow> 'r Query list" where
  "shown toLowerCase getTime localeCompare searchTerm sortBy queriesRef h =
     (let (h', s) =
            sortedQueries toLowerCase getTime localeCompare searchTerm sortBy queriesRef h
      in h' ! s)"

text \<open>
  What is assumed of \<open>localeCompare\<close>: it is a consistent comparator (any two
  strings are comparable, and the order is transitive), and no string comes before the
  empty string.
\<close>

definition collation :: "(jsstring \<Rightarrow> jsstring \<Rightarrow> int) \<Rightarrow> bool" where
  "collation lc =
     ((\<forall>a b. lc a b \<le> 0 \<or> lc b a \<le> 0)
      \<and> (\<forall>a b c. lc a b \<le> 0 \<and> lc b c \<le> 0 \<longrightarrow> lc a c \<le> 0)
      \<and> (\<forall>s. lc [] s \<le> 0))"

text \<open>
  The functions of the examples: a collation (the order of the code units), a date
  parser that knows two dates, and jobs with a given ticker or creation date.
\<close>

definition codeUnitOrder :: "jsstring \<Rightarrow> jsstring \<Rightarrow> int" where
  "codeUnitOrder a b = (if a < b then - 1 else if b < a then 1 else 0)"

definition sampleGetTime :: "jsstring \<Rightarrow> int option" where
  "sampleGetTime s =
     (if s = js ''2024-01-01'' then Some 1704067200000
      else if s = js ''2024-01-02'' then Some 1704153600000
      else None)"

definition tickerJob :: "int \<Rightarrow> jsstring option \<Rightarrow> unit Query" where
  "tickerJob i t = (job i Completed)\<lparr>ticker := t\<rparr>"

definition datedJob :: "int \<Rightarrow> jsstring \<Rightarrow> unit Query" where
  "datedJob i d = (job i Completed)\<lparr>created_at := d\<rparr>"

section \<open>Facts about the store\<close>

lemma findIndex_none: "findIndex p xs = - 1 \<longleftrightarrow> (\<forall>x \<in> set xs. \<not> p x)"
proof (induction xs)
  case Nil
  show ?case by simp
next
  case (Cons x xs)
  have nonneg: "\<And>ys. findIndex p ys \<noteq> - 1 \<Longrightarrow> 0 \<le> findIndex p ys"
  proof -
    fix ys show "findIndex p ys \<noteq> - 1 \<Longrightarrow> 0 \<le> findIndex p ys"
      by (induction ys) (auto simp: Let_def split: if_splits)
  qed
  show ?case
  proof (cases "p x")
    case True
    then show ?thesis by simp
  next
    case False
    show ?thesis
    proof (cases "findIndex p xs = - 1")
      case True
      with False Cons show ?thesis by (simp add: Let_def)
    next
      case no: False
      with nonneg have "0 \<le> findIndex p xs" by blast
      with no False Cons show ?thesis by (auto simp: Let_def)
    qed
  qed
qed

lemma findIndex_bounds:
  "findIndex p xs \<noteq> - 1 \<Longrightarrow> 0 \<le> findIndex p xs \<and> nat (findIndex p xs) < length xs"
  by (induction xs) (auto simp: Let_def split: if_splits)


lemma find_update_first:
  "findIndex p xs \<noteq> - 1 \<Longrightarrow> p y \<Longrightarrow> find p (xs[nat (findIndex p xs) := y]) = Some y"
proof (induction xs)
  case Nil
  then show ?case by simp
next
  case (Cons x xs)
  show ?case
  proof (cases "p x")
    case True
    with Cons.prems show ?thesis by simp
  next
    case False
    with Cons.prems have ne: "findIndex p xs \<noteq> - 1"
      by (auto simp: Let_def split: if_splits)
    then have b: "0 \<le> findIndex p xs" using findIndex_bounds by blast
    have eq: "findIndex p (x # xs) = findIndex p xs + 1"
      using False ne by (simp add: Let_def)
    have n: "nat (findIndex p xs + 1) = Suc (nat (findIndex p xs))"
      using b by simp
    from Cons.IH [OF ne Cons.prems(2)] False show ?thesis
      unfolding eq n by simp
  qed
qed

lemma findIndex_absent:
  "id_q p \<notin> id_q ` set qs \<Longrightarrow> findIndex (\<lambda>q. id_q q = id_q p) qs = - 1"
  unfolding findIndex_none by (auto simp: image_iff)

lemma findIndex_present:
  "id_q p \<in> id_q ` set qs \<Longrightarrow> findIndex (\<lambda>q. id_q q = id_q p) qs \<noteq> - 1"
  unfolding findIndex_none by (auto simp: image_iff)

lemma row_present_iff: "row i state \<noteq> None \<longleftrightarrow> i \<in> id_q ` set (queries state)"
  unfolding row_def find_None_iff image_iff by metis

section \<open>Claims about the store\<close>

text \<open>
  C10. A fulfilled delete subtracts exactly 1 from \<open>total\<close> in every state, also
  when \<open>queries\<close> holds no row with the deleted id (the filter then removes nothing and
  the list is unchanged); \<open>total\<close> is not clamped, so from \<open>total = 0\<close> the result
  is \<open>-1\<close>.
\<close>

theorem delete_always_decrements:
  "total (reducer state (DeleteQueryFulfilled i)) = total state - 1
   \<and> total (reducer (state\<lparr>total := 0\<rparr>) (DeleteQueryFulfilled i)) = - 1
   \<and> (i \<notin> id_q ` set (queries state) \<longrightarrow>
        queries (reducer state (DeleteQueryFulfilled i)) = queries state)"
proof -
  have "i \<notin> id_q ` set (queries state) \<Longrightarrow>
          filter (\<lambda>q. id_q q \<noteq> i) (queries state) = queries state"
    by (rule filter_True) auto
  then show ?thesis by (simp add: deleteQuery_fulfilled_def)
qed

theorem delete_always_decrements_witness:
  "(7::int) \<notin> id_q ` set (queries (initialState :: (unit, unit) QueryState))
   \<and> total (reducer (initialState :: (unit, unit) QueryState) (DeleteQueryFulfilled 7)) = - 1
   \<and> queries (reducer (initialState :: (unit, unit) QueryState) (DeleteQueryFulfilled 7)) = []"
  using delete_always_decrements [of "initialState :: (unit, unit) QueryState" 7]
  by (simp add: initialState_def)

text \<open>
  C5 (as amended). A fulfilled delete removes every row with the deleted id from
  \<open>queries\<close> and subtracts 1 from \<open>total\<close>; it writes no other field, so
  \<open>currentQuery\<close> keeps its value, also when it holds the deleted job.
\<close>

theorem delete_removes_row_keeps_focus:
  "queries (reducer state (DeleteQueryFulfilled i)) =
       filter (\<lambda>q. id_q q \<noteq> i) (queries state)
   \<and> row i (reducer state (DeleteQueryFulfilled i)) = None
   \<and> total (reducer state (DeleteQueryFulfilled i)) = total state - 1
   \<and> currentQuery (reducer state (DeleteQueryFulfilled i)) = currentQuery state
   \<and> comparisonData (reducer state (DeleteQueryFulfilled i)) = comparisonData state
   \<and> loading (reducer state (DeleteQueryFulfilled i)) = loading state
   \<and> error (reducer state (DeleteQueryFulfilled i)) = error state"
proof -
  have "find (\<lambda>q. id_q q = i) (filter (\<lambda>q. id_q q \<noteq> i) (queries state)) = None"
    by (simp add: find_None_iff)
  then show ?thesis by (simp add: deleteQuery_fulfilled_def row_def)
qed

text \<open>
  C5 as stated fails: deleting job 1 while it is the focused job leaves it in
  \<open>currentQuery\<close>.
\<close>

theorem delete_focused_counterexample:
  "map_option id_q (currentQuery
       (initialState\<lparr>queries := [job 1 Pending], currentQuery := Some (job 1 Pending),
                      total := 1\<rparr> :: (unit, unit) QueryState)) = Some 1
   \<and> currentQuery
       (reducer (initialState\<lparr>queries := [job 1 Pending],
                   currentQuery := Some (job 1 Pending), total := 1\<rparr>
                 :: (unit, unit) QueryState)
          (DeleteQueryFulfilled 1)) = Some (job 1 Pending)"
  by (simp add: initialState_def deleteQuery_fulfilled_def job_def)




text \<open>
  C3 (as amended). A fulfilled single fetch copies the payload: afterwards the focused
  job has the payload's status, and so has the row with the payload's id when there is
  one. A job in a terminal state therefore stays terminal when the fetched payload is
  terminal.
\<close>

theorem fetch_one_status_follows_payload:
  "map_option status (currentQuery (reducer state (FetchQueryFulfilled p))) = Some (status p)
   \<and> (row (id_q p) state \<noteq> None \<longrightarrow>
        map_option status (row (id_q p) (reducer state (FetchQueryFulfilled p)))
          = Some (status p))
   \<and> (terminal (status p) \<longrightarrow>
        (\<forall>q. currentQuery (reducer state (FetchQueryFulfilled p)) = Some q
               \<longrightarrow> status q \<noteq> Pending)
      \<and> (\<forall>q. row (id_q p) (reducer state (FetchQueryFulfilled p)) = Some q
               \<longrightarrow> status q \<noteq> Pending))"
proof -
  let ?P = "\<lambda>q :: 'a Query. id_q q = id_q p"
  let ?i = "findIndex ?P (queries state)"
  let ?s = "reducer state (FetchQueryFulfilled p)"
  have focus: "currentQuery ?s = Some p"
    by (simp add: fetchQuery_fulfilled_def Let_def)
  have found: "row (id_q p) ?s = Some p" if "row (id_q p) state \<noteq> None"
  proof -
    from that have "id_q p \<in> id_q ` set (queries state)"
      by (simp only: row_present_iff)
    then have ne: "?i \<noteq> - 1" by (rule findIndex_present)
    have upd: "queries ?s = (queries state)[nat ?i := p]"
      using ne by (simp add: fetchQuery_fulfilled_def Let_def)
    show ?thesis
      unfolding row_def upd using find_update_first [OF ne, of p] by simp
  qed
  have absent: "row (id_q p) ?s = None" if "row (id_q p) state = None"
  proof -
    from that have "id_q p \<notin> id_q ` set (queries state)"
      using row_present_iff [of "id_q p" state] by simp
    then have "?i = - 1" by (rule findIndex_absent)
    then have "queries ?s = queries state"
      by (simp add: fetchQuery_fulfilled_def Let_def)
    with that show ?thesis by (simp add: row_def)
  qed
  have rows: "row (id_q p) ?s = Some q \<Longrightarrow> q = p" for q
    using found absent by (cases "row (id_q p) state = None") auto
  have t: "terminal (status p) \<Longrightarrow> status p \<noteq> Pending"
    by (auto simp: terminal_def)
  from focus found rows t show ?thesis by auto
qed

theorem fetch_one_status_follows_payload_witness:
  "row (id_q (job 1 Failed))
       (initialState\<lparr>queries := [job 1 Completed],
          currentQuery := Some (job 1 Completed)\<rparr> :: (unit, unit) QueryState) \<noteq> None
   \<and> terminal (status (job 1 Failed))
   \<and> map_option status
       (row 1 (reducer (initialState\<lparr>queries := [job 1 Completed],
                          currentQuery := Some (job 1 Completed)\<rparr>
                        :: (unit, unit) QueryState)
                 (FetchQueryFulfilled (job 1 Failed)))) = Some Failed
   \<and> map_option status
       (currentQuery (reducer (initialState\<lparr>queries := [job 1 Completed],
                          currentQuery := Some (job 1 Completed)\<rparr>
                        :: (unit, unit) QueryState)
                 (FetchQueryFulfilled (job 1 Failed)))) = Some Failed"
  using fetch_one_status_follows_payload
      [of "initialState\<lparr>queries := [job 1 Completed],
             currentQuery := Some (job 1 Completed)\<rparr> :: (unit, unit) QueryState"
          "job 1 Failed"]
  by (simp add: initialState_def job_def row_def terminal_def)

text \<open>
  C3 as stated fails: job 1 is Completed in its row and in the focus; a fetched payload
  for job 1 whose status is Pending makes both Pending again.
\<close>

theorem terminal_not_absorbing_counterexample:
  "map_option status
       (row 1 (initialState\<lparr>queries := [job 1 Completed],
                 currentQuery := Some (job 1 Completed)\<rparr> :: (unit, unit) QueryState))
     = Some Completed
   \<and> map_option status
       (row 1 (reducer (initialState\<lparr>queries := [job 1 Completed],
                          currentQuery := Some (job 1 Completed)\<rparr>
                        :: (unit, unit) QueryState)
                 (FetchQueryFulfilled (job 1 Pending)))) = Some Pending
   \<and> map_option status
       (currentQuery (reducer (initialState\<lparr>queries := [job 1 Completed],
                          currentQuery := Some (job 1 Completed)\<rparr>
                        :: (unit, unit) QueryState)
                 (FetchQueryFulfilled (job 1 Pending)))) = Some Pending"
  by (simp add: initialState_def fetchQuery_fulfilled_def job_def row_def)

text \<open>
  The exclusivity of the two display slots is kept by every action except a fulfilled
  single fetch, which writes \<open>currentQuery\<close> and leaves \<open>comparisonData\<close>
  as it is.
\<close>

lemma exclusive_kept_by_other_actions:
  "exclusive state \<Longrightarrow> (\<forall>p. a \<noteq> FetchQueryFulfilled p) \<Longrightarrow> exclusive (reducer state a)"
  by (cases a)
     (auto simp: exclusive_def clearError_def clearCurrentQuery_def setComparisonData_def
        createQuery_pending_def createQuery_fulfilled_def createQuery_rejected_def
        fetchQueries_pending_def fetchQueries_fulfilled_def fetchQueries_rejected_def
        deleteQuery_fulfilled_def)

text \<open>
  C1 at the failing run: from the initial state, a comparison is shown and then a
  single fetch is fulfilled; both slots are occupied afterwards.
\<close>

theorem exclusivity_broken_by_fetch_one:
  "currentQuery (run (initialState :: (unit, nat) QueryState)
       [SetComparisonData (Some 5), FetchQueryFulfilled (job 1 Completed)])
     = Some (job 1 Completed)
   \<and> comparisonData (run (initialState :: (unit, nat) QueryState)
       [SetComparisonData (Some 5), FetchQueryFulfilled (job 1 Completed)]) = Some 5
   \<and> \<not> exclusive (run (initialState :: (unit, nat) QueryState)
       [SetComparisonData (Some 5), FetchQueryFulfilled (job 1 Completed)])"
  by (simp add: run_def initialState_def setComparisonData_def fetchQuery_fulfilled_def
      exclusive_def)

section \<open>Facts about the poll loop\<close>

lemma poll_inv_cases:
  "poll_inv app \<longleftrightarrow>
     (timers app = [] \<and> cleanup app = None
        \<and> (pollingQueryId app = None \<or> pollingQueryId app = Some 0))
   \<or> (\<exists>i h. i \<noteq> 0 \<and> watching i h app)"
proof (cases "timers app")
  case Nil
  then show ?thesis by (simp add: poll_inv_def watching_def)
next
  case (Cons t ts)
  show ?thesis
  proof (cases ts)
    case Nil
    have "t = \<lparr>handle = handle t, watched = watched t, delay = delay t\<rparr>" by simp
    then show ?thesis
      using Cons Nil unfolding poll_inv_def watching_def
      by (auto; metis)
  next
    case (Cons u us)
    with \<open>timers app = t # ts\<close> show ?thesis
      by (simp add: poll_inv_def watching_def)
  qed
qed

text \<open>
  The invariant of the poll loop holds when the component mounts and is kept by every
  \<open>setPollingQueryId\<close>.
\<close>

lemma poll_inv_mount: "poll_inv (mount state)"
  by (simp add: poll_inv_def mount_def)

lemma cleanup_leaves_no_timer:
  "poll_inv app \<Longrightarrow> timers (pollCleanup (app\<lparr>pollingQueryId := v\<rparr>)) = []"
  unfolding poll_inv_cases
  by (auto simp: pollCleanup_def clearInterval_def watching_def)

lemma cleanup_idle:
  "poll_inv app \<Longrightarrow> idle (pollCleanup (app\<lparr>pollingQueryId := v\<rparr>))"
  unfolding poll_inv_cases
  by (auto simp: pollCleanup_def clearInterval_def watching_def idle_def)

lemma effect_from_idle:
  "idle app \<Longrightarrow> pollingQueryId app = Some b \<Longrightarrow> b \<noteq> 0
     \<Longrightarrow> watching b (nextHandle app) (pollEffect app)"
  by (simp add: idle_def pollEffect_def setInterval_def watching_def)

lemma effect_from_idle_falsy:
  "idle app \<Longrightarrow> pollingQueryId app = None \<or> pollingQueryId app = Some 0
     \<Longrightarrow> timers (pollEffect app) = [] \<and> cleanup (pollEffect app) = None
         \<and> pollingQueryId (pollEffect app) = pollingQueryId app"
  by (auto simp: idle_def pollEffect_def)

lemma cleanup_keeps_id:
  "pollingQueryId (pollCleanup app) = pollingQueryId app"
  by (simp add: pollCleanup_def clearInterval_def split: option.splits)

lemma arm_watching:
  assumes "poll_inv app" and "b \<noteq> 0"
  shows "\<exists>h. watching b h (setPollingQueryId (Some b) app)"
proof (cases "pollingQueryId app = Some b")
  case True
  with assms have "\<exists>i h. i \<noteq> 0 \<and> watching i h app"
    unfolding poll_inv_cases by auto
  then obtain i h where "watching i h app" by blast
  with True have "watching b h app" by (simp add: watching_def)
  with True show ?thesis by (auto simp: setPollingQueryId_def)
next
  case False
  let ?c = "pollCleanup (app\<lparr>pollingQueryId := Some b\<rparr>)"
  have "idle ?c" using assms(1) by (rule cleanup_idle)
  moreover have "pollingQueryId ?c = Some b" by (simp add: cleanup_keeps_id)
  ultimately have "watching b (nextHandle ?c) (pollEffect ?c)"
    using assms(2) by (rule effect_from_idle)
  with False show ?thesis by (auto simp: setPollingQueryId_def)
qed

lemma setPollingQueryId_inv:
  assumes "poll_inv app"
  shows "poll_inv (setPollingQueryId v app)"
proof (cases "pollingQueryId app = v")
  case True
  with assms show ?thesis by (simp add: setPollingQueryId_def)
next
  case False
  let ?c = "pollCleanup (app\<lparr>pollingQueryId := v\<rparr>)"
  have i: "idle ?c" using assms by (rule cleanup_idle)
  have p: "pollingQueryId ?c = v" by (simp add: cleanup_keeps_id)
  have "poll_inv (pollEffect ?c)"
  proof (cases "v = None \<or> v = Some 0")
    case True
    with i p effect_from_idle_falsy [of ?c] show ?thesis
      unfolding poll_inv_cases by auto
  next
    case False
    then obtain b where b: "v = Some b" "b \<noteq> 0" by auto
    with i p have "watching b (nextHandle ?c) (pollEffect ?c)"
      using effect_from_idle by blast
    with b show ?thesis unfolding poll_inv_cases by blast
  qed
  with False show ?thesis by (simp add: setPollingQueryId_def)
qed

lemma arms_inv: "poll_inv app \<Longrightarrow> poll_inv (arms vs app)"
  unfolding arms_def
  by (induction vs arbitrary: app) (simp_all add: setPollingQueryId_inv)

lemma poll_inv_length: "poll_inv app \<Longrightarrow> length (timers app) \<le> 1"
  unfolding poll_inv_cases by (auto simp: watching_def)

text \<open>
  What the poll loop does keep: along every run of \<open>setPollingQueryId\<close> calls from
  the mounted component at most one interval is active; when \<open>pollingQueryId\<close>
  changes, the cleanup of the effect leaves no interval before the effect body starts
  the next one; and arming a job whose id is not \<open>0\<close> leaves exactly one interval,
  which watches that job.
\<close>

theorem single_watch:
  "length (timers (arms vs (mount state))) \<le> 1
   \<and> timers (pollCleanup ((arms vs (mount state))\<lparr>pollingQueryId := v\<rparr>)) = []
   \<and> (b \<noteq> 0 \<longrightarrow> (\<exists>h. watching b h (setPollingQueryId (Some b) (arms vs (mount state)))))"
proof -
  have inv: "poll_inv (arms vs (mount state))"
    by (rule arms_inv) (rule poll_inv_mount)
  from inv have "length (timers (arms vs (mount state))) \<le> 1"
    by (rule poll_inv_length)
  moreover from inv
  have "timers (pollCleanup ((arms vs (mount state))\<lparr>pollingQueryId := v\<rparr>)) = []"
    by (rule cleanup_leaves_no_timer)
  moreover from inv
  have "b \<noteq> 0 \<Longrightarrow> \<exists>h. watching b h (setPollingQueryId (Some b) (arms vs (mount state)))"
    by (rule arm_watching)
  ultimately show ?thesis by blast
qed

theorem single_watch_witness:
  "(2::int) \<noteq> 0
   \<and> watching 1 1 (arms [Some 1] (mount (initialState :: (unit, unit) QueryState)))
   \<and> (\<exists>h. watching 2 h
          (setPollingQueryId (Some 2)
             (arms [Some 1] (mount (initialState :: (unit, unit) QueryState)))))"
proof -
  have "watching 1 1 (arms [Some 1] (mount (initialState :: (unit, unit) QueryState)))"
    by (simp add: arms_def mount_def setPollingQueryId_def pollCleanup_def pollEffect_def
        setInterval_def watching_def)
  then show ?thesis
    using single_watch [of "[Some 1]" "initialState :: (unit, unit) QueryState" None 2]
    by simp
qed

text \<open>
  C2 at the failing input, the job id \<open>0\<close>. While job 1 is watched, arming job 0
  cancels the interval of job 1 and starts none: the guard \<open>!pollingQueryId\<close> of
  the effect holds for \<open>0\<close> as it does for \<open>null\<close>. The same happens on the
  path of the code: a submission that the server answers with a job of id 0 calls
  \<open>setPollingQueryId\<close> with that id and no interval watches the new job.
\<close>

theorem arm_zero_starts_no_watch:
  "watching 1 1 (arms [Some 1] (mount (initialState :: (unit, unit) QueryState)))
   \<and> timers (setPollingQueryId (Some 0)
        (arms [Some 1] (mount (initialState :: (unit, unit) QueryState)))) = []
   \<and> pollingQueryId (setPollingQueryId (Some 0)
        (arms [Some 1] (mount (initialState :: (unit, unit) QueryState)))) = Some 0
   \<and> timers (handleSubmit (Fulfilled (job 0 Pending)) (Rejected [])
        ((mount (initialState :: (unit, unit) QueryState))\<lparr>queryText := js ''RSI?''\<rparr>)) = []
   \<and> pollingQueryId (handleSubmit (Fulfilled (job 0 Pending)) (Rejected [])
        ((mount (initialState :: (unit, unit) QueryState))\<lparr>queryText := js ''RSI?''\<rparr>))
       = Some 0"
proof -
  have t: "trim (js ''RSI?'') \<noteq> []"
    by (simp add: trim_def js_def isWhiteSpace_def)
  have g: "js ''general'' \<noteq> js ''analyze''"
    by (simp add: js_def)
  have arm: "watching 1 1 (arms [Some 1] (mount (initialState :: (unit, unit) QueryState)))
     \<and> timers (setPollingQueryId (Some 0)
          (arms [Some 1] (mount (initialState :: (unit, unit) QueryState)))) = []
     \<and> pollingQueryId (setPollingQueryId (Some 0)
          (arms [Some 1] (mount (initialState :: (unit, unit) QueryState)))) = Some 0"
    by (simp add: arms_def mount_def setPollingQueryId_def pollCleanup_def pollEffect_def
        setInterval_def clearInterval_def watching_def)
  have submit: "timers (handleSubmit (Fulfilled (job 0 Pending)) (Rejected [])
        ((mount (initialState :: (unit, unit) QueryState))\<lparr>queryText := js ''RSI?''\<rparr>)) = []
     \<and> pollingQueryId (handleSubmit (Fulfilled (job 0 Pending)) (Rejected [])
        ((mount (initialState :: (unit, unit) QueryState))\<lparr>queryText := js ''RSI?''\<rparr>))
       = Some 0"
    using t g
    by (simp add: handleSubmit_def mount_def createQuery_def fetchQueries_def dispatch_def
        Let_def setPollingQueryId_def pollCleanup_def pollEffect_def job_def)
  from arm submit show ?thesis by simp
qed

section \<open>Claims about ticks and submission\<close>

lemma fetchQuery_poll_fields:
  "timers (fetchQuery i r app) = timers app
   \<and> cleanup (fetchQuery i r app) = cleanup app
   \<and> pollingQueryId (fetchQuery i r app) = pollingQueryId app
   \<and> calls (fetchQuery i r app) = calls app @ [GetQueryCall i]"
  by (cases r) (simp_all add: fetchQuery_def dispatch_def Let_def)

lemma fetchQueries_poll_fields:
  "timers (fetchQueries s l r app) = timers app
   \<and> cleanup (fetchQueries s l r app) = cleanup app
   \<and> pollingQueryId (fetchQueries s l r app) = pollingQueryId app
   \<and> calls (fetchQueries s l r app) = calls app @ [GetQueriesCall s l]"
  by (cases r) (auto simp: fetchQueries_def dispatch_def Let_def)

lemma fetchQuery_rejected_store: "store (fetchQuery i (Rejected m) app) = store app"
  by (simp add: fetchQuery_def dispatch_def Let_def)

lemma watching_fetchQuery: "watching i h app \<Longrightarrow> watching i h (fetchQuery j r app)"
  by (simp add: watching_def fetchQuery_poll_fields)

lemma tick_watching:
  "watching i h app \<Longrightarrow> tick h r l app = pollTick i r l app"
  by (simp add: tick_def watching_def)

lemma tick_no_timer: "timers app = [] \<Longrightarrow> tick h r l app = app"
  by (simp add: tick_def)

lemma disarm_from_watching:
  assumes "watching i h app"
  shows "timers (setPollingQueryId None app) = []
     \<and> cleanup (setPollingQueryId None app) = None
     \<and> pollingQueryId (setPollingQueryId None app) = None
     \<and> calls (setPollingQueryId None app) = calls app"
  using assms
  by (simp add: watching_def setPollingQueryId_def pollCleanup_def clearInterval_def
      pollEffect_def)

text \<open>
  The invariant of the poll loop is also kept by a tick and by a submission: neither
  touches the intervals except through \<open>setPollingQueryId\<close>.
\<close>

lemma poll_inv_cong:
  "timers a = timers b \<Longrightarrow> cleanup a = cleanup b \<Longrightarrow> pollingQueryId a = pollingQueryId b
     \<Longrightarrow> poll_inv a = poll_inv b"
  by (simp add: poll_inv_def split: list.splits)

lemma createQuery_poll_fields:
  "timers (createQuery d r app) = timers app
   \<and> cleanup (createQuery d r app) = cleanup app
   \<and> pollingQueryId (createQuery d r app) = pollingQueryId app"
  by (cases r) (simp_all add: createQuery_def dispatch_def Let_def)

lemma pollTick_inv:
  assumes "poll_inv app"
  shows "poll_inv (pollTick i r l app)"
proof -
  let ?a1 = "fetchQuery i r app"
  have a1: "poll_inv ?a1"
    using assms poll_inv_cong [of ?a1 app] by (simp add: fetchQuery_poll_fields)
  have "poll_inv (fetchQueries 0 20 l (setPollingQueryId None ?a1))"
    using setPollingQueryId_inv [OF a1, of None]
      poll_inv_cong [of "fetchQueries 0 20 l (setPollingQueryId None ?a1)"
        "setPollingQueryId None ?a1"]
    by (simp add: fetchQueries_poll_fields)
  with a1 show ?thesis
    by (cases r) (simp_all add: pollTick_def Let_def)
qed

lemma tick_inv: "poll_inv app \<Longrightarrow> poll_inv (tick h r l app)"
  by (simp add: tick_def pollTick_inv split: option.splits)

lemma handleSubmit_inv:
  assumes "poll_inv app"
  shows "poll_inv (handleSubmit cr lr app)"
proof -
  have form: "poll_inv (a\<lparr>queryText := [], ticker_st := []\<rparr>) = poll_inv a"
    for a :: "('a, 'b) App"
    by (simp add: poll_inv_def split: list.splits)
  have al: "poll_inv (app\<lparr>alerts := alerts app @ [ticker_alert]\<rparr>)"
    using assms by (simp add: poll_inv_def split: list.splits)
  have c: "poll_inv (createQuery d cr app)" for d
    using assms poll_inv_cong [of "createQuery d cr app" app]
    by (simp add: createQuery_poll_fields)
  have f: "poll_inv (fetchQueries 0 20 lr (createQuery d cr app))" for d
    using c [of d]
      poll_inv_cong [of "fetchQueries 0 20 lr (createQuery d cr app)" "createQuery d cr app"]
    by (simp add: fetchQueries_poll_fields)
  have s: "poll_inv (setPollingQueryId v (fetchQueries 0 20 lr (createQuery d cr app)))"
    for d v
    using f by (rule setPollingQueryId_inv)
  show ?thesis
    using assms al c s
    by (cases cr) (simp_all add: handleSubmit_def Let_def form)
qed

text \<open>
  C6. While job \<open>i\<close> is watched through the interval \<open>h\<close>, a tick whose fetch
  is fulfilled with a Completed or Failed job clears the interval (no handle ticks any
  more), leaves \<open>pollingQueryId\<close> empty, and requests the history again
  (\<open>fetchQueries\<close> with skip 0 and limit 20) after the single fetch; a tick whose
  fetch is fulfilled with a Pending job leaves the same interval of 2000 ms watching
  job \<open>i\<close>.
\<close>

theorem terminal_tick_disarms_and_refreshes:
  assumes "watching i h app"
  shows "(terminal (status q) \<longrightarrow>
            timers (tick h (Fulfilled q) lr app) = []
          \<and> cleanup (tick h (Fulfilled q) lr app) = None
          \<and> pollingQueryId (tick h (Fulfilled q) lr app) = None
          \<and> calls (tick h (Fulfilled q) lr app)
              = calls app @ [GetQueryCall i, GetQueriesCall 0 20]
          \<and> (\<forall>h' r l. tick h' r l (tick h (Fulfilled q) lr app)
                = tick h (Fulfilled q) lr app))
       \<and> (status q = Pending \<longrightarrow>
            watching i h (tick h (Fulfilled q) lr app)
          \<and> calls (tick h (Fulfilled q) lr app) = calls app @ [GetQueryCall i])"
proof -
  let ?a1 = "fetchQuery i (Fulfilled q) app"
  have w1: "watching i h ?a1" using assms by (rule watching_fetchQuery)
  have c1: "calls ?a1 = calls app @ [GetQueryCall i]"
    by (simp add: fetchQuery_poll_fields)
  have t: "tick h (Fulfilled q) lr app = pollTick i (Fulfilled q) lr app"
    using assms by (rule tick_watching)
  have pend: "status q = Pending \<Longrightarrow> pollTick i (Fulfilled q) lr app = ?a1"
    by (simp add: pollTick_def Let_def)
  have fin: "terminal (status q) \<Longrightarrow>
      pollTick i (Fulfilled q) lr app = fetchQueries 0 20 lr (setPollingQueryId None ?a1)"
    by (auto simp: pollTick_def Let_def terminal_def)
  have d: "timers (setPollingQueryId None ?a1) = []
     \<and> cleanup (setPollingQueryId None ?a1) = None
     \<and> pollingQueryId (setPollingQueryId None ?a1) = None
     \<and> calls (setPollingQueryId None ?a1) = calls ?a1"
    using w1 by (rule disarm_from_watching)
  have after: "timers (tick h (Fulfilled q) lr app) = []
          \<and> cleanup (tick h (Fulfilled q) lr app) = None
          \<and> pollingQueryId (tick h (Fulfilled q) lr app) = None
          \<and> calls (tick h (Fulfilled q) lr app)
              = calls app @ [GetQueryCall i, GetQueriesCall 0 20]"
    if "terminal (status q)"
    using fin [OF that] d c1 by (simp add: t fetchQueries_poll_fields)
  have silent: "tick h' r l (tick h (Fulfilled q) lr app) = tick h (Fulfilled q) lr app"
    if "terminal (status q)" for h' r l
    using after [OF that] by (simp add: tick_no_timer)
  from after silent pend w1 c1 t show ?thesis by simp
qed

theorem terminal_tick_disarms_and_refreshes_witness:
  "watching 1 1 (arms [Some 1] (mount (initialState :: (unit, unit) QueryState)))
   \<and> terminal (status (job 1 Completed))
   \<and> timers (tick 1 (Fulfilled (job 1 Completed)) (Rejected [])
        (arms [Some 1] (mount (initialState :: (unit, unit) QueryState)))) = []
   \<and> calls (tick 1 (Fulfilled (job 1 Completed)) (Rejected [])
        (arms [Some 1] (mount (initialState :: (unit, unit) QueryState))))
       = [GetQueryCall 1, GetQueriesCall 0 20]
   \<and> status (job 1 Pending) = Pending
   \<and> watching 1 1 (tick 1 (Fulfilled (job 1 Pending)) (Rejected [])
        (arms [Some 1] (mount (initialState :: (unit, unit) QueryState))))"
proof -
  let ?app = "arms [Some 1] (mount (initialState :: (unit, unit) QueryState))"
  have w: "watching 1 1 ?app"
    by (simp add: arms_def mount_def setPollingQueryId_def pollCleanup_def pollEffect_def
        setInterval_def watching_def)
  have c: "calls ?app = []"
    by (simp add: arms_def mount_def setPollingQueryId_def pollCleanup_def pollEffect_def
        setInterval_def)
  show ?thesis
    using w c terminal_tick_disarms_and_refreshes [OF w, of "job 1 Completed" "Rejected []"]
      terminal_tick_disarms_and_refreshes [OF w, of "job 1 Pending" "Rejected []"]
    by (simp add: terminal_def job_def)
qed

lemma failed_tick_step:
  assumes "watching i h app"
  shows "watching i h (tick h (Rejected m) lr app)
     \<and> store (tick h (Rejected m) lr app) = store app"
proof -
  have "tick h (Rejected m) lr app = fetchQuery i (Rejected m) app"
    using assms by (simp add: tick_watching pollTick_def Let_def)
  then show ?thesis
    using assms by (simp add: watching_fetchQuery fetchQuery_rejected_store)
qed

lemma failed_ticks_keep:
  "watching i h app \<Longrightarrow>
     watching i h (failedTicks h ms lr app) \<and> store (failedTicks h ms lr app) = store app"
  unfolding failedTicks_def
proof (induction ms arbitrary: app)
  case Nil
  then show ?case by simp
next
  case (Cons m ms)
  from Cons.prems have s: "watching i h (tick h (Rejected m) lr app)
      \<and> store (tick h (Rejected m) lr app) = store app"
    by (rule failed_tick_step)
  then have "watching i h (tick h (Rejected m) lr app)" by simp
  from Cons.IH [OF this] s show ?case by simp
qed

text \<open>
  C7. While job \<open>i\<close> is watched through the interval \<open>h\<close>, a tick whose fetch
  is rejected leaves the watch as it is and the store unchanged, so the \<open>error\<close>
  slot keeps its value; the same holds after any number of failed ticks in a row.
\<close>

theorem failed_tick_keeps_watch:
  assumes "watching i h app"
  shows "watching i h (tick h (Rejected m) lr app)
       \<and> store (tick h (Rejected m) lr app) = store app
       \<and> error (store (tick h (Rejected m) lr app)) = error (store app)
       \<and> watching i h (failedTicks h ms lr app)
       \<and> error (store (failedTicks h ms lr app)) = error (store app)"
  using failed_tick_step [OF assms, of m lr] failed_ticks_keep [OF assms, of ms lr]
  by simp

theorem failed_tick_keeps_watch_witness:
  "watching 1 1 (arms [Some 1] (mount (initialState :: (unit, unit) QueryState)))
   \<and> watching 1 1 (tick 1 (Rejected (js ''Failed to fetch query'')) (Rejected [])
        (arms [Some 1] (mount (initialState :: (unit, unit) QueryState))))
   \<and> error (store (failedTicks 1 [js ''a'', js ''b''] (Rejected [])
        (arms [Some 1] (mount (initialState :: (unit, unit) QueryState))))) = None"
proof -
  let ?app = "arms [Some 1] (mount (initialState :: (unit, unit) QueryState))"
  have w: "watching 1 1 ?app"
    by (simp add: arms_def mount_def setPollingQueryId_def pollCleanup_def pollEffect_def
        setInterval_def watching_def)
  have e: "error (store ?app) = None"
    by (simp add: arms_def mount_def setPollingQueryId_def pollCleanup_def pollEffect_def
        setInterval_def initialState_def)
  show ?thesis
    using w e failed_tick_keeps_watch
      [OF w, of "js ''Failed to fetch query''" "Rejected []" "[js ''a'', js ''b'']"]
    by simp
qed

text \<open>
  C8 (as amended). With a request text that is empty after trimming, \<open>handleSubmit\<close>
  returns at once and changes nothing. With a non-empty text, the type \<open>analyze\<close>
  and a ticker that is empty after trimming, it shows an alert and changes nothing else.
  In both cases no network call is made and the store is unchanged, so \<open>loading\<close>
  and \<open>error\<close> keep their values.
\<close>

theorem local_validation_leaves_store:
  "(trim (queryText app) = [] \<longrightarrow> handleSubmit cr lr app = app)
   \<and> (trim (queryText app) \<noteq> [] \<and> queryType app = js ''analyze''
        \<and> trim (ticker_st app) = [] \<longrightarrow>
        handleSubmit cr lr app = app\<lparr>alerts := alerts app @ [ticker_alert]\<rparr>)
   \<and> (trim (queryText app) = []
        \<or> (queryType app = js ''analyze'' \<and> trim (ticker_st app) = []) \<longrightarrow>
        calls (handleSubmit cr lr app) = calls app
      \<and> store (handleSubmit cr lr app) = store app)"
  by (simp add: handleSubmit_def)

theorem local_validation_leaves_store_witness:
  "trim (queryText ((mount (initialState :: (unit, unit) QueryState))
          \<lparr>queryText := js '' RSI? '', queryType := js ''analyze'', ticker_st := js '' ''\<rparr>))
     \<noteq> []
   \<and> trim (js '' '') = []
   \<and> handleSubmit (Rejected []) (Rejected [])
        ((mount (initialState :: (unit, unit) QueryState))
          \<lparr>queryText := js '' RSI? '', queryType := js ''analyze'', ticker_st := js '' ''\<rparr>)
      = (mount (initialState :: (unit, unit) QueryState))
          \<lparr>queryText := js '' RSI? '', queryType := js ''analyze'', ticker_st := js '' '',
            alerts := [ticker_alert]\<rparr>
   \<and> handleSubmit (Rejected []) (Rejected [])
        ((mount (initialState :: (unit, unit) QueryState))\<lparr>queryText := js '' ''\<rparr>)
      = (mount (initialState :: (unit, unit) QueryState))\<lparr>queryText := js '' ''\<rparr>"
proof -
  have t1: "trim (js '' RSI? '') \<noteq> []"
    by (simp add: trim_def js_def isWhiteSpace_def)
  have t2: "trim (js '' '') = []"
    by (simp add: trim_def js_def isWhiteSpace_def)
  show ?thesis
    using t1 t2
      local_validation_leaves_store
        [of "(mount (initialState :: (unit, unit) QueryState))
          \<lparr>queryText := js '' RSI? '', queryType := js ''analyze'', ticker_st := js '' ''\<rparr>"
          "Rejected []" "Rejected []"]
      local_validation_leaves_store
        [of "(mount (initialState :: (unit, unit) QueryState))\<lparr>queryText := js '' ''\<rparr>"
          "Rejected []" "Rejected []"]
    by (simp add: mount_def)
qed

text \<open>
  C8 as stated fails: after a submission rejected for its missing ticker, and after one
  rejected for its empty text, the \<open>error\<close> slot of the store is still empty.
\<close>

theorem validation_sets_no_error_counterexample:
  "trim (js ''RSI?'') \<noteq> [] \<and> trim [] = []
   \<and> error (store (handleSubmit (Rejected []) (Rejected [])
        ((mount (initialState :: (unit, unit) QueryState))
          \<lparr>queryText := js ''RSI?'', queryType := js ''analyze'', ticker_st := []\<rparr>))) = None
   \<and> error (store (handleSubmit (Rejected []) (Rejected [])
        (mount (initialState :: (unit, unit) QueryState)))) = None"
  by (simp add: handleSubmit_def mount_def initialState_def trim_def js_def isWhiteSpace_def)

section \<open>Claims about the history projection\<close>

lemma set_insert_cmp: "set (insert_cmp cmp x ys) = insert x (set ys)"
  by (induction ys) auto

lemma set_sort_cmp: "set (sort_cmp cmp xs) = set xs"
  unfolding sort_cmp_def by (induction xs) (simp_all add: set_insert_cmp)

lemma mset_insert_cmp: "mset (insert_cmp cmp x ys) = add_mset x (mset ys)"
  by (induction ys) simp_all

lemma mset_sort_cmp: "mset (sort_cmp cmp xs) = mset xs"
  unfolding sort_cmp_def by (induction xs) (simp_all add: mset_insert_cmp)

text \<open>
  Insertion keeps a list sorted when the comparator is total and transitive on the
  elements at hand.
\<close>

lemma sorted_insert_cmp:
  assumes tot: "\<And>a b. a \<in> S \<Longrightarrow> b \<in> S \<Longrightarrow> sortCompare cmp a b \<le> 0 \<or> sortCompare cmp b a \<le> 0"
    and trans: "\<And>a b c. a \<in> S \<Longrightarrow> b \<in> S \<Longrightarrow> c \<in> S \<Longrightarrow> sortCompare cmp a b \<le> 0
                  \<Longrightarrow> sortCompare cmp b c \<le> 0 \<Longrightarrow> sortCompare cmp a c \<le> 0"
    and x: "x \<in> S"
  shows "set ys \<subseteq> S \<Longrightarrow> sorted_wrt (\<lambda>a b. sortCompare cmp a b \<le> 0) ys
           \<Longrightarrow> sorted_wrt (\<lambda>a b. sortCompare cmp a b \<le> 0) (insert_cmp cmp x ys)"
proof (induction ys)
  case Nil
  show ?case by simp
next
  case (Cons y ys)
  from Cons.prems have y: "y \<in> S" and ys: "set ys \<subseteq> S"
    and after: "\<forall>z \<in> set ys. sortCompare cmp y z \<le> 0"
    and rest: "sorted_wrt (\<lambda>a b. sortCompare cmp a b \<le> 0) ys"
    by auto
  show ?case
  proof (cases "sortCompare cmp x y \<le> 0")
    case True
    have "sortCompare cmp x z \<le> 0" if "z \<in> set ys" for z
      using trans [OF x y _ True] after that ys by blast
    with True Cons.prems show ?thesis by simp
  next
    case False
    with tot [OF x y] have "sortCompare cmp y x \<le> 0" by blast
    with after have "\<forall>z \<in> set (insert_cmp cmp x ys). sortCompare cmp y z \<le> 0"
      by (simp add: set_insert_cmp)
    with False Cons.IH [OF ys rest] show ?thesis by simp
  qed
qed

lemma sort_cmp_sorted:
  assumes tot: "\<And>a b. a \<in> S \<Longrightarrow> b \<in> S \<Longrightarrow> sortCompare cmp a b \<le> 0 \<or> sortCompare cmp b a \<le> 0"
    and trans: "\<And>a b c. a \<in> S \<Longrightarrow> b \<in> S \<Longrightarrow> c \<in> S \<Longrightarrow> sortCompare cmp a b \<le> 0
                  \<Longrightarrow> sortCompare cmp b c \<le> 0 \<Longrightarrow> sortCompare cmp a c \<le> 0"
  shows "set xs \<subseteq> S \<Longrightarrow> sorted_wrt (\<lambda>a b. sortCompare cmp a b \<le> 0) (sort_cmp cmp xs)"
proof (induction xs)
  case Nil
  show ?case by (simp add: sort_cmp_def)
next
  case (Cons x xs)
  then have x: "x \<in> S" and xs: "set xs \<subseteq> S" by auto
  have s: "set (sort_cmp cmp xs) \<subseteq> S" using xs by (simp add: set_sort_cmp)
  have "sorted_wrt (\<lambda>a b. sortCompare cmp a b \<le> 0) (insert_cmp cmp x (sort_cmp cmp xs))"
    using tot trans x s Cons.IH [OF xs] by (rule sorted_insert_cmp)
  then show ?case by (simp add: sort_cmp_def)
qed

lemma shown_eq:
  "shown lower getTime lc searchTerm sortBy r h =
     sort_cmp (compareFn getTime lc sortBy) (filter (matches lower searchTerm) (h ! r))"
  by (simp add: shown_def sortedQueries_def alloc_def array_sort_def nth_append)

lemma heap_kept:
  "j < length h \<Longrightarrow>
     fst (sortedQueries lower getTime lc searchTerm sortBy r h) ! j = h ! j"
  by (simp add: sortedQueries_def alloc_def array_sort_def nth_append)

text \<open>The three orders, each for the rows on which its comparator is consistent.\<close>

lemma newest_sorted:
  assumes "\<forall>q \<in> set xs. getTime (created_at q) \<noteq> None"
  shows "sorted_wrt
           (\<lambda>a b. \<exists>ta tb. getTime (created_at a) = Some ta
                     \<and> getTime (created_at b) = Some tb \<and> tb \<le> ta)
           (sort_cmp (compareFn getTime lc Newest) xs)"
proof -
  let ?cmp = "compareFn getTime lc Newest"
  have v: "sortCompare ?cmp a b = the (getTime (created_at b)) - the (getTime (created_at a))"
    if "a \<in> set xs" "b \<in> set xs" for a b
  proof -
    from that assms obtain ta tb where
      "getTime (created_at a) = Some ta" "getTime (created_at b) = Some tb"
      by (metis option.exhaust)
    then show ?thesis by (simp add: sortCompare_def compareFn_def minus_num_def)
  qed
  have "sorted_wrt (\<lambda>a b. sortCompare ?cmp a b \<le> 0) (sort_cmp ?cmp xs)"
  proof (rule sort_cmp_sorted [where S = "set xs"])
    show "set xs \<subseteq> set xs" by simp
  next
    fix a b assume "a \<in> set xs" "b \<in> set xs"
    then show "sortCompare ?cmp a b \<le> 0 \<or> sortCompare ?cmp b a \<le> 0"
      by (simp add: v) linarith
  next
    fix a b c
    assume "a \<in> set xs" "b \<in> set xs" "c \<in> set xs"
      "sortCompare ?cmp a b \<le> 0" "sortCompare ?cmp b c \<le> 0"
    then show "sortCompare ?cmp a c \<le> 0" by (simp add: v)
  qed
  then show ?thesis
  proof (rule sorted_wrt_mono_rel [rotated])
    fix a b
    assume a: "a \<in> set (sort_cmp ?cmp xs)" and b: "b \<in> set (sort_cmp ?cmp xs)"
      and le: "sortCompare ?cmp a b \<le> 0"
    from a b have m: "a \<in> set xs" "b \<in> set xs" by (simp_all add: set_sort_cmp)
    with assms obtain ta tb where
      t: "getTime (created_at a) = Some ta" "getTime (created_at b) = Some tb"
      by (metis option.exhaust)
    with le v [OF m] have "tb \<le> ta" by simp
    with t show "\<exists>ta tb. getTime (created_at a) = Some ta
        \<and> getTime (created_at b) = Some tb \<and> tb \<le> ta" by simp
  qed
qed

lemma oldest_sorted:
  assumes "\<forall>q \<in> set xs. getTime (created_at q) \<noteq> None"
  shows "sorted_wrt
           (\<lambda>a b. \<exists>ta tb. getTime (created_at a) = Some ta
                     \<and> getTime (created_at b) = Some tb \<and> ta \<le> tb)
           (sort_cmp (compareFn getTime lc Oldest) xs)"
proof -
  let ?cmp = "compareFn getTime lc Oldest"
  have v: "sortCompare ?cmp a b = the (getTime (created_at a)) - the (getTime (created_at b))"
    if "a \<in> set xs" "b \<in> set xs" for a b
  proof -
    from that assms obtain ta tb where
      "getTime (created_at a) = Some ta" "getTime (created_at b) = Some tb"
      by (metis option.exhaust)
    then show ?thesis by (simp add: sortCompare_def compareFn_def minus_num_def)
  qed
  have "sorted_wrt (\<lambda>a b. sortCompare ?cmp a b \<le> 0) (sort_cmp ?cmp xs)"
  proof (rule sort_cmp_sorted [where S = "set xs"])
    show "set xs \<subseteq> set xs" by simp
  next
    fix a b assume "a \<in> set xs" "b \<in> set xs"
    then show "sortCompare ?cmp a b \<le> 0 \<or> sortCompare ?cmp b a \<le> 0"
      by (simp add: v) linarith
  next
    fix a b c
    assume "a \<in> set xs" "b \<in> set xs" "c \<in> set xs"
      "sortCompare ?cmp a b \<le> 0" "sortCompare ?cmp b c \<le> 0"
    then show "sortCompare ?cmp a c \<le> 0" by (simp add: v)
  qed
  then show ?thesis
  proof (rule sorted_wrt_mono_rel [rotated])
    fix a b
    assume a: "a \<in> set (sort_cmp ?cmp xs)" and b: "b \<in> set (sort_cmp ?cmp xs)"
      and le: "sortCompare ?cmp a b \<le> 0"
    from a b have m: "a \<in> set xs" "b \<in> set xs" by (simp_all add: set_sort_cmp)
    with assms obtain ta tb where
      t: "getTime (created_at a) = Some ta" "getTime (created_at b) = Some tb"
      by (metis option.exhaust)
    with le v [OF m] have "ta \<le> tb" by simp
    with t show "\<exists>ta tb. getTime (created_at a) = Some ta
        \<and> getTime (created_at b) = Some tb \<and> ta \<le> tb" by simp
  qed
qed

lemma ticker_sorted:
  assumes "collation lc"
  shows "sorted_wrt (\<lambda>a b. lc (orEmpty (ticker a)) (orEmpty (ticker b)) \<le> 0)
           (sort_cmp (compareFn getTime lc Ticker) xs)"
proof -
  let ?cmp = "compareFn getTime lc Ticker"
  have v: "sortCompare ?cmp a b = lc (orEmpty (ticker a)) (orEmpty (ticker b))" for a b
    by (simp add: sortCompare_def compareFn_def)
  from assms have tot: "\<And>s t. lc s t \<le> 0 \<or> lc t s \<le> 0"
    and trans: "\<And>s t u. lc s t \<le> 0 \<Longrightarrow> lc t u \<le> 0 \<Longrightarrow> lc s u \<le> 0"
    unfolding collation_def by blast+
  have "sorted_wrt (\<lambda>a b. sortCompare ?cmp a b \<le> 0) (sort_cmp ?cmp xs)"
  proof (rule sort_cmp_sorted [where S = UNIV])
    show "set xs \<subseteq> UNIV" by simp
  next
    fix a b show "sortCompare ?cmp a b \<le> 0 \<or> sortCompare ?cmp b a \<le> 0"
      unfolding v by (rule tot)
  next
    fix a b c
    assume "sortCompare ?cmp a b \<le> 0" "sortCompare ?cmp b c \<le> 0"
    then show "sortCompare ?cmp a c \<le> 0" unfolding v by (rule trans)
  qed
  then show ?thesis by (simp add: v)
qed

lemma collation_codeUnitOrder: "collation codeUnitOrder"
  unfolding collation_def codeUnitOrder_def by (auto simp: not_less)

text \<open>
  C9 (as amended). The sorted view is built on a fresh copy: the store's \<open>queries\<close>
  array is unchanged in the heap, and the view holds exactly the rows that pass the
  search filter. When the \<open>created_at\<close> of every such row parses as a date, the view
  sorted by \<open>newest\<close> is in descending order of that date and sorted by \<open>oldest\<close>
  in ascending order. Sorted by \<open>ticker\<close> it is in the order of \<open>localeCompare\<close>
  on the tickers, where an absent or empty ticker reads as the empty string: a row
  that stands before a row without a ticker compares equal to the empty string, so the
  rows without a ticker come first.
\<close>

theorem sorted_queries_projection:
  assumes "queriesRef < length h"
  shows "fst (sortedQueries lower getTime lc searchTerm sortBy queriesRef h) ! queriesRef
           = h ! queriesRef
       \<and> mset (shown lower getTime lc searchTerm sortBy queriesRef h)
           = mset (filter (matches lower searchTerm) (h ! queriesRef))
       \<and> (sortBy = Newest
            \<and> (\<forall>q \<in> set (filter (matches lower searchTerm) (h ! queriesRef)).
                  getTime (created_at q) \<noteq> None) \<longrightarrow>
            sorted_wrt
              (\<lambda>a b. \<exists>ta tb. getTime (created_at a) = Some ta
                        \<and> getTime (created_at b) = Some tb \<and> tb \<le> ta)
              (shown lower getTime lc searchTerm sortBy queriesRef h))
       \<and> (sortBy = Oldest
            \<and> (\<forall>q \<in> set (filter (matches lower searchTerm) (h ! queriesRef)).
                  getTime (created_at q) \<noteq> None) \<longrightarrow>
            sorted_wrt
              (\<lambda>a b. \<exists>ta tb. getTime (created_at a) = Some ta
                        \<and> getTime (created_at b) = Some tb \<and> ta \<le> tb)
              (shown lower getTime lc searchTerm sortBy queriesRef h))
       \<and> (sortBy = Ticker \<and> collation lc \<longrightarrow>
            sorted_wrt (\<lambda>a b. lc (orEmpty (ticker a)) (orEmpty (ticker b)) \<le> 0)
              (shown lower getTime lc searchTerm sortBy queriesRef h)
          \<and> sorted_wrt
              (\<lambda>a b. orEmpty (ticker b) = [] \<longrightarrow>
                       lc (orEmpty (ticker a)) [] \<le> 0 \<and> lc [] (orEmpty (ticker a)) \<le> 0)
              (shown lower getTime lc searchTerm sortBy queriesRef h))"
proof -
  let ?xs = "filter (matches lower searchTerm) (h ! queriesRef)"
  have kept: "fst (sortedQueries lower getTime lc searchTerm sortBy queriesRef h) ! queriesRef
      = h ! queriesRef"
    using assms by (rule heap_kept)
  have perm: "mset (shown lower getTime lc searchTerm sortBy queriesRef h) = mset ?xs"
    by (simp add: shown_eq mset_sort_cmp)
  have first: "sorted_wrt
      (\<lambda>a b. orEmpty (ticker b) = [] \<longrightarrow>
               lc (orEmpty (ticker a)) [] \<le> 0 \<and> lc [] (orEmpty (ticker a)) \<le> 0)
      (sort_cmp (compareFn getTime lc Ticker) ?xs)"
    if c: "collation lc"
  proof (rule sorted_wrt_mono_rel [OF _ ticker_sorted [OF c]])
    fix a b :: "'a Query"
    assume "lc (orEmpty (ticker a)) (orEmpty (ticker b)) \<le> 0"
    moreover from c have "lc [] (orEmpty (ticker a)) \<le> 0"
      unfolding collation_def by blast
    ultimately show "orEmpty (ticker b) = [] \<longrightarrow>
        lc (orEmpty (ticker a)) [] \<le> 0 \<and> lc [] (orEmpty (ticker a)) \<le> 0"
      by auto
  qed
  from kept perm first show ?thesis
    using newest_sorted [of ?xs getTime lc] oldest_sorted [of ?xs getTime lc]
      ticker_sorted [of lc getTime ?xs]
    by (simp add: shown_eq)
qed

theorem sorted_queries_projection_witness:
  "(0::nat) < length ([tickerJob 1 (Some (js ''MSFT'')), tickerJob 2 (Some (js ''AAPL''))] # [])
   \<and> shown (\<lambda>s. s) sampleGetTime codeUnitOrder [] Ticker 0
        ([tickerJob 1 (Some (js ''MSFT'')), tickerJob 2 (Some (js ''AAPL''))] # [])
      = [tickerJob 2 (Some (js ''AAPL'')), tickerJob 1 (Some (js ''MSFT''))]
   \<and> sorted_wrt (\<lambda>a b. codeUnitOrder (orEmpty (ticker a)) (orEmpty (ticker b)) \<le> 0)
        (shown (\<lambda>s. s) sampleGetTime codeUnitOrder [] Ticker 0
          ([tickerJob 1 (Some (js ''MSFT'')), tickerJob 2 (Some (js ''AAPL''))] # []))
   \<and> sampleGetTime (created_at (datedJob 1 (js ''2024-01-01''))) = Some 1704067200000
   \<and> sampleGetTime (created_at (datedJob 2 (js ''2024-01-02''))) = Some 1704153600000
   \<and> shown (\<lambda>s. s) sampleGetTime codeUnitOrder [] Newest 0
        ([datedJob 1 (js ''2024-01-01''), datedJob 2 (js ''2024-01-02'')] # [])
      = [datedJob 2 (js ''2024-01-02''), datedJob 1 (js ''2024-01-01'')]
   \<and> sorted_wrt
        (\<lambda>a b. \<exists>ta tb. sampleGetTime (created_at a) = Some ta
                  \<and> sampleGetTime (created_at b) = Some tb \<and> tb \<le> ta)
        (shown (\<lambda>s. s) sampleGetTime codeUnitOrder [] Newest 0
          ([datedJob 1 (js ''2024-01-01''), datedJob 2 (js ''2024-01-02'')] # []))
   \<and> shown (\<lambda>s. s) sampleGetTime codeUnitOrder [] Oldest 0
        ([datedJob 2 (js ''2024-01-02''), datedJob 1 (js ''2024-01-01'')] # [])
      = [datedJob 1 (js ''2024-01-01''), datedJob 2 (js ''2024-01-02'')]
   \<and> sorted_wrt
        (\<lambda>a b. \<exists>ta tb. sampleGetTime (created_at a) = Some ta
                  \<and> sampleGetTime (created_at b) = Some tb \<and> ta \<le> tb)
        (shown (\<lambda>s. s) sampleGetTime codeUnitOrder [] Oldest 0
          ([datedJob 2 (js ''2024-01-02''), datedJob 1 (js ''2024-01-01'')] # []))"
proof -
  have m: "matches (\<lambda>s. s) [] q" for q :: "unit Query"
    by (cases "query_text q") (simp_all add: matches_def)
  have parse: "\<forall>q \<in> set [datedJob 1 (js ''2024-01-01''), datedJob 2 (js ''2024-01-02'')].
      sampleGetTime (created_at q) \<noteq> None"
    by (simp add: datedJob_def sampleGetTime_def js_def)
  have parse': "\<forall>q \<in> set [datedJob 2 (js ''2024-01-02''), datedJob 1 (js ''2024-01-01'')].
      sampleGetTime (created_at q) \<noteq> None"
    using parse by simp
  have t: "shown (\<lambda>s. s) sampleGetTime codeUnitOrder [] Ticker 0
        ([tickerJob 1 (Some (js ''MSFT'')), tickerJob 2 (Some (js ''AAPL''))] # [])
      = [tickerJob 2 (Some (js ''AAPL'')), tickerJob 1 (Some (js ''MSFT''))]"
    by (simp add: shown_eq m sort_cmp_def sortCompare_def compareFn_def codeUnitOrder_def
        orEmpty_def tickerJob_def job_def js_def)
  have n: "shown (\<lambda>s. s) sampleGetTime codeUnitOrder [] Newest 0
        ([datedJob 1 (js ''2024-01-01''), datedJob 2 (js ''2024-01-02'')] # [])
      = [datedJob 2 (js ''2024-01-02''), datedJob 1 (js ''2024-01-01'')]"
    by (simp add: shown_eq m sort_cmp_def sortCompare_def compareFn_def minus_num_def
        sampleGetTime_def datedJob_def job_def js_def)
  have o: "shown (\<lambda>s. s) sampleGetTime codeUnitOrder [] Oldest 0
        ([datedJob 2 (js ''2024-01-02''), datedJob 1 (js ''2024-01-01'')] # [])
      = [datedJob 1 (js ''2024-01-01''), datedJob 2 (js ''2024-01-02'')]"
    by (simp add: shown_eq m sort_cmp_def sortCompare_def compareFn_def minus_num_def
        sampleGetTime_def datedJob_def job_def js_def)
  have f: "filter (matches (\<lambda>s. s) []) xs = xs" for xs :: "unit Query list"
    by (simp add: m)
  have parsed: "sampleGetTime (created_at (datedJob 1 (js ''2024-01-01''))) = Some 1704067200000
      \<and> sampleGetTime (created_at (datedJob 2 (js ''2024-01-02''))) = Some 1704153600000"
    by (simp add: datedJob_def sampleGetTime_def js_def)
  show ?thesis
    using collation_codeUnitOrder parse parsed
      sorted_queries_projection
        [of 0 "[tickerJob 1 (Some (js ''MSFT'')), tickerJob 2 (Some (js ''AAPL''))] # []"
            "\<lambda>s. s" sampleGetTime codeUnitOrder "[]" Ticker]
      sorted_queries_projection
        [of 0 "[datedJob 1 (js ''2024-01-01''), datedJob 2 (js ''2024-01-02'')] # []"
            "\<lambda>s. s" sampleGetTime codeUnitOrder "[]" Newest]
      sorted_queries_projection
        [of 0 "[datedJob 2 (js ''2024-01-02''), datedJob 1 (js ''2024-01-01'')] # []"
            "\<lambda>s. s" sampleGetTime codeUnitOrder "[]" Oldest]
    unfolding t n o
    by (simp add: f del: sorted_wrt.simps)
qed

text \<open>
  Whatever the collation, as long as it puts AAPL after the empty string: sorted by
  ticker, the rows with an absent or an empty ticker come before the row of AAPL.
\<close>

lemma empty_ticker_first_any_collation:
  assumes "lc [] [] \<le> 0" and "\<not> lc (js ''AAPL'') [] \<le> 0"
  shows "shown (\<lambda>s. s) getTime lc [] Ticker 0
      ([tickerJob 1 (Some (js ''AAPL'')), tickerJob 2 None, tickerJob 3 (Some [])] # [])
    = [tickerJob 2 None, tickerJob 3 (Some []), tickerJob 1 (Some (js ''AAPL''))]"
proof -
  have m: "matches (\<lambda>s. s) [] q" for q :: "unit Query"
    by (cases "query_text q") (simp_all add: matches_def)
  have k: "orEmpty (Some (js ''AAPL'')) = js ''AAPL''"
    by (simp add: orEmpty_def)
  show ?thesis
    using assms
    by (simp add: shown_eq m sort_cmp_def sortCompare_def compareFn_def orEmpty_def
        tickerJob_def k)
qed

text \<open>
  C9 as stated fails: sorted by ticker, the rows with an absent or an empty ticker come
  first, before the row of AAPL.
\<close>

theorem empty_ticker_first_counterexample:
  "shown (\<lambda>s. s) sampleGetTime codeUnitOrder [] Ticker 0
      ([tickerJob 1 (Some (js ''AAPL'')), tickerJob 2 None, tickerJob 3 (Some [])] # [])
    = [tickerJob 2 None, tickerJob 3 (Some []), tickerJob 1 (Some (js ''AAPL''))]"
  by (rule empty_ticker_first_any_collation) (simp_all add: codeUnitOrder_def js_def)

end
